theory Spec2Isabelle
  imports Main "HOL-Library.Word"
begin

section \<open>JavaScript values\<close>

text \<open>
  The transformers of the client are stream stages built with Through2. The values that
  travel through them are JavaScript values: buffers of bytes, strings, parsed objects,
  error objects, and the parser functions handed to \<open>getConcater\<close>. Numbers are the
  integers (status codes and byte counts); an object is the list of its own properties
  in insertion order; a function value takes the text of a response body.
\<close>

type_synonym byte = "8 word"

type_synonym buffer = "byte list"

datatype jsval =
    JUndefined
  | JNull
  | JBool bool
  | JNum int
  | JStr string
  | JBuffer buffer
  | JObject "(string \<times> jsval) list"
  | JFunction "string \<Rightarrow> jsval"

type_synonym obj = "(string \<times> jsval) list"

text \<open>The test \<open>if (v)\<close>: which values count as true.\<close>

fun truthy :: "jsval \<Rightarrow> bool" where
  "truthy JUndefined = False"
| "truthy JNull = False"
| "truthy (JBool b) = b"
| "truthy (JNum n) = (n \<noteq> 0)"
| "truthy (JStr s) = (s \<noteq> [])"
| "truthy (JBuffer b) = True"
| "truthy (JObject ps) = True"
| "truthy (JFunction f) = True"

text \<open>
  Modelled from the spec: \<open>helpers.js\<close>, which holds \<open>isFunction\<close>, is not among the
  sources. The spec speaks of a "non-callable parser" (4.1): \<open>isFunction v\<close> holds
  exactly when \<open>v\<close> is a function value.
\<close>

fun isFunction :: "jsval \<Rightarrow> bool" where
  "isFunction (JFunction f) = True"
| "isFunction v = False"

text \<open>The assignment \<open>o[k] = v\<close> on the properties of an object, and the read \<open>o[k]\<close>.\<close>

fun set_prop :: "obj \<Rightarrow> string \<Rightarrow> jsval \<Rightarrow> obj" where
  "set_prop [] k v = [(k, v)]"
| "set_prop ((k', v') # ps) k v =
     (if k' = k then (k, v) # ps else (k', v') # set_prop ps k v)"

definition get_prop :: "obj \<Rightarrow> string \<Rightarrow> jsval" where
  "get_prop ps k = (case map_of ps k of None \<Rightarrow> JUndefined | Some v \<Rightarrow> v)"

text \<open>
  An error value carries the name of its type and its message. \<open>TypeError\<close> is the
  runtime's.
\<close>

definition new_error :: "string \<Rightarrow> string \<Rightarrow> obj" where
  "new_error cls msg = [(''name'', JStr cls), (''message'', JStr msg)]"

definition TypeError :: "string \<Rightarrow> obj" where
  "TypeError msg = new_error ''TypeError'' msg"

text \<open>
  Modelled from the spec: \<open>errors.js\<close>, which holds \<open>S3Error\<close> and
  \<open>IncorrectSizeError\<close>, is not among the sources. The spec calls the error types
  "an opaque constructible type per error kind" whose constructor, "given a message
  string, produces a mutable error value to which kind and header fields are then
  attached".
\<close>

definition S3Error :: "string \<Rightarrow> obj" where
  "S3Error msg = new_error ''S3Error'' msg"

definition IncorrectSizeError :: "string \<Rightarrow> obj" where
  "IncorrectSizeError msg = new_error ''IncorrectSizeError'' msg"

text \<open>
  The template literal \<open>`${n}`\<close> on an integer: its decimal digits, with a minus sign
  when negative (status codes and sizes are far below the magnitude where JavaScript
  changes to the exponent notation).
\<close>

definition digit :: "nat \<Rightarrow> char" where
  "digit d = ''0123456789'' ! (d mod 10)"

fun decimal :: "nat \<Rightarrow> string" where
  "decimal n = (if n < 10 then [digit n] else decimal (n div 10) @ [digit (n mod 10)])"

definition number_to_string :: "int \<Rightarrow> string" where
  "number_to_string i = (if i < 0 then CHR ''-'' # decimal (nat (- i)) else decimal (nat i))"

text \<open>
  The number that a string of decimal digits writes: what \<open>decimal\<close> is checked
  against.
\<close>

fun read_decimal :: "string \<Rightarrow> nat" where
  "read_decimal s = foldl (\<lambda>n c. 10 * n + (of_char c - 48)) 0 s"

text \<open>The call \<open>f(text)\<close>: calling a value that is not a function throws a TypeError.\<close>

fun call_function :: "jsval \<Rightarrow> string \<Rightarrow> jsval + jsval" where
  "call_function (JFunction f) text = Inr (f text)"
| "call_function v text = Inl (JObject (TypeError ''parser is not a function''))"

section \<open>What a stage does to its stream\<close>

text \<open>
  A stage is a pair of functions given to Through2: one runs on every chunk, one when the
  input has ended. Inside them the code calls \<open>this.push(v)\<close> (\<open>this.push(null)\<close> is
  \<open>Push JNull\<close>), the callback \<open>cb(e)\<close> (\<open>cb()\<close> is \<open>Callback JUndefined\<close>),
  and \<open>unpipe()\<close> on one of the two producers given to \<open>getSizeLimiter\<close>. The model of
  a stage function returns the calls it makes, in order, and the new state.
\<close>

datatype upstream = Stream | Chunker

datatype call = Push jsval | Callback jsval | Unpipe upstream

fun feed :: "('s \<Rightarrow> buffer \<Rightarrow> call list \<times> 's) \<Rightarrow> 's \<Rightarrow> buffer list \<Rightarrow> call list \<times> 's" where
  "feed t s [] = ([], s)"
| "feed t s (c # cs) =
     (let (k, s') = t s c; (ks, s'') = feed t s' cs in (k @ ks, s''))"

text \<open>The chunks other than \<open>null\<close> that a list of calls pushes, in order.\<close>

fun pushed :: "call list \<Rightarrow> jsval list" where
  "pushed [] = []"
| "pushed (Push JNull # cs) = pushed cs"
| "pushed (Push v # cs) = v # pushed cs"
| "pushed (c # cs) = pushed cs"

text \<open>
  What the listeners of the stream and the two producers see of these calls, by the
  contract of a Through2 (Node Transform) stream: \<open>push(null)\<close> ends the readable
  side, once; a pushed chunk is a data item (outside object mode an empty chunk is
  dropped and a chunk that is neither a buffer nor a string is refused; after the end a
  push is an error); a callback with a true argument is an error event of the stream;
  the flush function's callback without one ends the readable side if it has not ended
  yet. An error event does not stop the calls that follow it in the stage function (the
  stream has a listener for it). The claims proved below need the events of
  \<open>push(null)\<close>, of pushed buffers and objects and of the callbacks only.
\<close>

datatype event = Data jsval | End | Error jsval | Unpiped upstream

datatype phase = Transforming | Flushing

fun chunk_length :: "jsval \<Rightarrow> nat option" where
  "chunk_length (JBuffer b) = Some (length b)"
| "chunk_length (JStr s) = Some (length s)"
| "chunk_length v = None"

fun push_chunk :: "bool \<Rightarrow> bool \<Rightarrow> jsval \<Rightarrow> event list \<times> bool" where
  "push_chunk om ended JNull = (if ended then [] else [End], True)"
| "push_chunk om ended v =
     (if om \<or> (case chunk_length v of Some n \<Rightarrow> 0 < n | None \<Rightarrow> False)
      then (if ended then [Error (JObject (new_error ''Error'' ''stream.push() after EOF''))]
            else [Data v], ended)
      else (case v of
              JUndefined \<Rightarrow> ([], ended)
            | JBuffer b \<Rightarrow> ([], ended)
            | JStr s \<Rightarrow> ([], ended)
            | _ \<Rightarrow> ([Error (JObject (TypeError ''Invalid non-string/buffer chunk''))], ended)))"

fun deliver :: "bool \<Rightarrow> phase \<Rightarrow> bool \<Rightarrow> call \<Rightarrow> event list \<times> bool" where
  "deliver om ph ended (Push v) = push_chunk om ended v"
| "deliver om ph ended (Unpipe u) = ([Unpiped u], ended)"
| "deliver om ph ended (Callback e) =
     (if truthy e then ([Error e], ended)
      else (case ph of
              Transforming \<Rightarrow> ([], ended)
            | Flushing \<Rightarrow> push_chunk om ended JNull))"

fun observe :: "bool \<Rightarrow> phase \<Rightarrow> bool \<Rightarrow> call list \<Rightarrow> event list \<times> bool" where
  "observe om ph ended [] = ([], ended)"
| "observe om ph ended (c # cs) =
     (let (es, ended') = deliver om ph ended c;
          (es', ended'') = observe om ph ended' cs
      in (es @ es', ended''))"

definition stream_events :: "bool \<Rightarrow> call list \<Rightarrow> call list \<Rightarrow> event list" where
  "stream_events om tcalls fcalls =
     (let (es, ended) = observe om Transforming False tcalls
      in es @ fst (observe om Flushing ended fcalls))"

section \<open>getConcater\<close>

text \<open>
  The stage keeps the chunks it has received in \<open>bufs\<close>. Its construction throws when
  the parser is a true value that is not a function. \<open>Buffer.toString\<close> belongs to the
  runtime: the model takes it as the parameter \<open>toString\<close>.
\<close>

record concater =
  objectMode :: bool
  parser :: jsval
  emitError :: bool
  bufs :: "buffer list"

definition getConcater :: "jsval \<Rightarrow> bool \<Rightarrow> jsval + concater" where
  \<open>getConcater p e =
     (if truthy p \<and> \<not> isFunction p
      then Inl (JObject (TypeError ''parser should be of type "function"''))
      else Inr \<lparr>objectMode = truthy p, parser = p, emitError = e, bufs = []\<rparr>)\<close>

definition concater_transform :: "concater \<Rightarrow> buffer \<Rightarrow> call list \<times> concater" where
  "concater_transform c chunk = ([Callback JUndefined], c\<lparr>bufs := bufs c @ [chunk]\<rparr>)"

definition concater_flush :: "(buffer \<Rightarrow> string) \<Rightarrow> concater \<Rightarrow> jsval + call list" where
  "concater_flush toString c =
     (if emitError c then
        (case call_function (parser c) (toString (concat (bufs c))) of
           Inl exn \<Rightarrow> Inl exn
         | Inr v \<Rightarrow> Inr [Callback v, Push JNull])
      else if bufs c \<noteq> [] then
        (if truthy (parser c) then
           (case call_function (parser c) (toString (concat (bufs c))) of
              Inl exn \<Rightarrow> Inl exn
            | Inr v \<Rightarrow> Inr [Push v, Callback JUndefined])
         else Inr [Push (JBuffer (concat (bufs c))), Callback JUndefined])
      else Inr [Callback JUndefined])"

text \<open>
  A whole run of the stage: construction, the chunks in arrival order, then the end of
  the input. The result is the exception thrown, or the calls made on the chunks and
  the calls made at the end.
\<close>

definition concater_run ::
  "(buffer \<Rightarrow> string) \<Rightarrow> jsval \<Rightarrow> bool \<Rightarrow> buffer list \<Rightarrow> jsval + (call list \<times> call list)" where
  "concater_run toString p e chunks =
     (case getConcater p e of
        Inl exn \<Rightarrow> Inl exn
      | Inr c \<Rightarrow>
          (let (tcalls, c') = feed concater_transform c chunks
           in case concater_flush toString c' of
                Inl exn \<Rightarrow> Inl exn
              | Inr fcalls \<Rightarrow> Inr (tcalls, fcalls)))"

definition concater_events ::
  "(buffer \<Rightarrow> string) \<Rightarrow> jsval \<Rightarrow> bool \<Rightarrow> buffer list \<Rightarrow> jsval + event list" where
  "concater_events toString p e chunks =
     (case concater_run toString p e chunks of
        Inl exn \<Rightarrow> Inl exn
      | Inr (tcalls, fcalls) \<Rightarrow> Inr (stream_events (truthy p) tcalls fcalls))"

text \<open>
  For concrete runs: \<open>latin1\<close> is the runtime's decoding with one character per
  byte, and \<open>constant_parser v\<close> is a parser that returns \<open>v\<close> on every text.
\<close>

definition latin1 :: "buffer \<Rightarrow> string" where
  "latin1 b = map (\<lambda>x. char_of (unat x)) b"

definition constant_parser :: "jsval \<Rightarrow> jsval" where
  "constant_parser v = JFunction (\<lambda>text. v)"

section \<open>getErrorTransformer\<close>

text \<open>
  The response exposes \<open>statusCode\<close>, \<open>headersSent\<close> and \<open>getHeader\<close>. The parser of
  XML error bodies, \<open>xmlParsers.parseError\<close>, is an external collaborator: the model
  takes it as the parameter \<open>parseError\<close>.
\<close>

record response =
  statusCode :: int
  headersSent :: bool
  getHeader :: "string \<Rightarrow> jsval"

definition code_message :: "int \<Rightarrow> string \<times> string" where
  "code_message sc =
     (if sc = 301 then (''MovedPermanently'', ''Moved Permanently'')
      else if sc = 307 then (''TemporaryRedirect'', ''Are you using the correct endpoint URL?'')
      else if sc = 403 then (''AccessDenied'', ''Valid and authorized credentials required'')
      else if sc = 404 then (''NotFound'', ''Not Found'')
      else if sc = 405 then (''MethodNotAllowed'', ''Method Not Allowed'')
      else if sc = 501 then (''MethodNotAllowed'', ''Method Not Allowed'')
      else (''UnknownError'', number_to_string sc))"

definition headerInfo :: "response \<Rightarrow> obj" where
  "headerInfo r =
     (let h = [];
          h = set_prop h ''amzRequestid''
                (if headersSent r then getHeader r ''x-amz-request-id'' else JNull);
          h = set_prop h ''amzId2''
                (if headersSent r then getHeader r ''x-amz-id-2'' else JNull);
          h = set_prop h ''amzBucketRegion''
                (if headersSent r then getHeader r ''x-amz-bucket-region'' else JNull)
      in h)"

definition error_parser ::
  "(string \<Rightarrow> jsval \<Rightarrow> jsval) \<Rightarrow> string \<Rightarrow> string \<Rightarrow> obj \<Rightarrow> string \<Rightarrow> jsval" where
  "error_parser parseError code message hinfo xmlString =
     (if xmlString = [] then
        (let e = S3Error message;
             e = set_prop e ''code'' (JStr code);
             e = foldl (\<lambda>e (key, value). set_prop e key value) e hinfo
         in JObject e)
      else parseError xmlString (JObject hinfo))"

definition getErrorTransformer ::
  "(string \<Rightarrow> jsval \<Rightarrow> jsval) \<Rightarrow> response \<Rightarrow> jsval + concater" where
  "getErrorTransformer parseError r =
     (let (code, message) = code_message (statusCode r);
          hinfo = headerInfo r
      in getConcater (JFunction (error_parser parseError code message hinfo)) True)"

text \<open>The transformer on the chunks of a response body, and then on the end of the body.\<close>

definition errorTransformer_events ::
  "(buffer \<Rightarrow> string) \<Rightarrow> (string \<Rightarrow> jsval \<Rightarrow> jsval) \<Rightarrow> response \<Rightarrow> buffer list
     \<Rightarrow> jsval + event list" where
  "errorTransformer_events toString parseError r chunks =
     (case getErrorTransformer parseError r of
        Inl exn \<Rightarrow> Inl exn
      | Inr c \<Rightarrow>
          (let (tcalls, c') = feed concater_transform c chunks
           in case concater_flush toString c' of
                Inl exn \<Rightarrow> Inl exn
              | Inr fcalls \<Rightarrow> Inr (stream_events (objectMode c) tcalls fcalls)))"

section \<open>getSizeLimiter\<close>

text \<open>
  \<open>size_arg\<close> is the argument \<open>size\<close>, kept for the error message; \<open>sizeRemaining\<close>
  is the counter. \<open>chunk.slice(0, n)\<close> keeps the first \<open>n\<close> bytes, and counts a
  negative \<open>n\<close> from the end of the chunk.
\<close>

record limiter =
  size_arg :: int
  sizeRemaining :: int

definition getSizeLimiter :: "int \<Rightarrow> limiter" where
  "getSizeLimiter n = \<lparr>size_arg = n, sizeRemaining = n\<rparr>"

definition slice0 :: "buffer \<Rightarrow> int \<Rightarrow> buffer" where
  "slice0 chunk n =
     (if n < 0 then take (nat (int (length chunk) + n)) chunk else take (nat n) chunk)"

definition limiter_transform :: "limiter \<Rightarrow> buffer \<Rightarrow> call list \<times> limiter" where
  "limiter_transform s chunk =
     (let len = min (int (length chunk)) (sizeRemaining s);
          chunk' = (if len < int (length chunk) then slice0 chunk len else chunk);
          remaining = sizeRemaining s - len
      in ([Push (JBuffer chunk')]
          @ (if remaining = 0 then [Unpipe Stream, Unpipe Chunker, Push JNull] else [])
          @ [Callback JUndefined],
          s\<lparr>sizeRemaining := remaining\<rparr>))"

definition limiter_flush :: "limiter \<Rightarrow> call list" where
  "limiter_flush s =
     (if sizeRemaining s \<noteq> 0
      then [Callback (JObject (IncorrectSizeError
              (''size of the input stream is not equal to the expected size(''
               @ number_to_string (size_arg s) @ '')'')))]
      else [Push JNull, Callback JUndefined])"

text \<open>The stage on a list of chunks, and then on the end of its input.\<close>

definition limiter_feed :: "int \<Rightarrow> buffer list \<Rightarrow> call list \<times> limiter" where
  "limiter_feed n chunks = feed limiter_transform (getSizeLimiter n) chunks"

definition limiter_events :: "int \<Rightarrow> buffer list \<Rightarrow> event list" where
  "limiter_events n chunks =
     (let (tcalls, s) = limiter_feed n chunks
      in stream_events True tcalls (limiter_flush s))"

text \<open>The number of bytes in the buffers that a list of calls pushes.\<close>

fun forwarded :: "call list \<Rightarrow> nat" where
  "forwarded [] = 0"
| "forwarded (Push (JBuffer b) # cs) = length b + forwarded cs"
| "forwarded (c # cs) = forwarded cs"

section \<open>getHashSummer\<close>

text \<open>
  A hash object of the runtime's \<open>Crypto\<close> is known by its algorithm and by the data it
  has been given, in order: \<open>update\<close> adds data, and the digest is a function of the
  algorithm, of all this data and of the encoding asked for. That function is the
  parameter \<open>digest\<close> of the model.
\<close>

record hash =
  algorithm :: string
  absorbed :: buffer

definition createHash :: "string \<Rightarrow> hash" where
  "createHash alg = \<lparr>algorithm = alg, absorbed = []\<rparr>"

definition update :: "hash \<Rightarrow> buffer \<Rightarrow> hash" where
  "update h chunk = h\<lparr>absorbed := absorbed h @ chunk\<rparr>"

record summer =
  anonymous :: bool
  md5 :: hash
  sha256 :: hash

definition getHashSummer :: "bool \<Rightarrow> summer" where
  "getHashSummer a = \<lparr>anonymous = a, md5 = createHash ''md5'', sha256 = createHash ''sha256''\<rparr>"

definition summer_transform :: "summer \<Rightarrow> buffer \<Rightarrow> call list \<times> summer" where
  "summer_transform s chunk =
     (let s = s\<lparr>md5 := update (md5 s) chunk\<rparr>;
          s = (if \<not> anonymous s then s\<lparr>sha256 := update (sha256 s) chunk\<rparr> else s)
      in ([Callback JUndefined], s))"

definition summer_flush :: "(string \<Rightarrow> buffer \<Rightarrow> string \<Rightarrow> string) \<Rightarrow> summer \<Rightarrow> call list" where
  "summer_flush digest s =
     (let md5sum = digest (algorithm (md5 s)) (absorbed (md5 s)) ''base64'';
          hashData = [(''md5sum'', JStr md5sum)];
          hashData = (if \<not> anonymous s
                      then set_prop hashData ''sha256sum''
                             (JStr (digest (algorithm (sha256 s)) (absorbed (sha256 s)) ''hex''))
                      else hashData)
      in [Push (JObject hashData), Push JNull])"

definition summer_feed :: "bool \<Rightarrow> buffer list \<Rightarrow> call list \<times> summer" where
  "summer_feed a chunks = feed summer_transform (getHashSummer a) chunks"

definition summer_events ::
  "(string \<Rightarrow> buffer \<Rightarrow> string \<Rightarrow> string) \<Rightarrow> bool \<Rightarrow> buffer list \<Rightarrow> event list" where
  "summer_events digest a chunks =
     (let (tcalls, s) = summer_feed a chunks
      in stream_events True tcalls (summer_flush digest s))"

section \<open>Numbers as text\<close>

lemma digit_value: "d < 10 \<Longrightarrow> of_char (digit d) = (48 + d :: nat)"
proof -
  assume "d < 10"
  then have "d \<in> {0, 1, 2, 3, 4, 5, 6, 7, 8, 9}" by auto
  then show ?thesis by (auto simp: digit_def)
qed

lemma read_decimal_snoc: "read_decimal (s @ [c]) = 10 * read_decimal s + (of_char c - 48)"
  by simp

lemma read_decimal_decimal: "read_decimal (decimal n) = n"
proof (induction n rule: decimal.induct)
  case (1 n)
  show ?case
  proof (cases "n < 10")
    case True
    then show ?thesis by (simp add: digit_value)
  next
    case False
    have "decimal n = decimal (n div 10) @ [digit (n mod 10)]"
      using False by (subst decimal.simps) simp
    then have "read_decimal (decimal n) =
        10 * read_decimal (decimal (n div 10)) + (of_char (digit (n mod 10)) - 48)"
      by (simp only: read_decimal_snoc)
    also have "\<dots> = 10 * (n div 10) + n mod 10"
      using 1 [OF False] by (simp add: digit_value del: read_decimal.simps)
    finally show ?thesis by simp
  qed
qed

lemma decimal_digits: "set (decimal n) \<subseteq> set ''0123456789''"
proof (induction n rule: decimal.induct)
  case (1 n)
  have d: "\<And>d. d < 10 \<Longrightarrow> digit d \<in> set ''0123456789''"
    unfolding digit_def by (rule nth_mem) simp
  show ?case
  proof (cases "n < 10")
    case True
    then show ?thesis using d [of n] by simp
  next
    case False
    have "decimal n = decimal (n div 10) @ [digit (n mod 10)]"
      using False by (subst decimal.simps) simp
    then show ?thesis using 1 [OF False] d [of "n mod 10"] by simp
  qed
qed

lemma number_to_string_418: "number_to_string 418 = ''418''"
  by (simp add: number_to_string_def digit_def)

lemma number_to_string_10: "number_to_string 10 = ''10''"
  by (simp add: number_to_string_def digit_def)

section \<open>The calls of a stage that only calls back\<close>

lemma pushed_callbacks: "pushed (replicate n (Callback JUndefined)) = []"
  by (induction n) simp_all

lemma observe_callbacks:
  "observe om Transforming ended (replicate n (Callback JUndefined)) = ([], ended)"
  by (induction n) simp_all

section \<open>The concatenator\<close>

lemma concater_feed:
  "feed concater_transform c chunks =
     (replicate (length chunks) (Callback JUndefined), c\<lparr>bufs := bufs c @ chunks\<rparr>)"
  by (induction chunks arbitrary: c) (simp_all add: concater_transform_def)

lemma getConcater_accepts:
  "\<not> truthy p \<or> isFunction p \<Longrightarrow>
   getConcater p e = Inr \<lparr>objectMode = truthy p, parser = p, emitError = e, bufs = []\<rparr>"
  by (auto simp: getConcater_def)

lemma call_function_falsy:
  "\<not> truthy p \<Longrightarrow> call_function p text = Inl (JObject (TypeError ''parser is not a function''))"
  by (cases p) simp_all

lemma concater_run_no_parser:
  "\<not> truthy p \<Longrightarrow>
   concater_run toString p False chunks =
     Inr (replicate (length chunks) (Callback JUndefined),
          if chunks \<noteq> [] then [Push (JBuffer (concat chunks)), Callback JUndefined]
          else [Callback JUndefined])"
  by (simp add: concater_run_def getConcater_accepts concater_feed concater_flush_def)

lemma concater_run_parser:
  "concater_run toString (JFunction f) e chunks =
     Inr (replicate (length chunks) (Callback JUndefined),
          if e then [Callback (f (toString (concat chunks))), Push JNull]
          else if chunks \<noteq> [] then [Push (f (toString (concat chunks))), Callback JUndefined]
          else [Callback JUndefined])"
  by (simp add: concater_run_def getConcater_accepts concater_feed concater_flush_def)

text \<open>
  C4, as amended. A concatenator made without a parser and without \<open>emitError\<close>, on a
  sequence of at least one chunk, pushes nothing while the chunks arrive; when the input
  ends it pushes one buffer, the concatenation of the chunks in arrival order, and
  nothing else. The stream gives that buffer as its one data item when it holds a byte,
  and no data item when all the chunks are empty; then it ends. Made without a parser
  and with \<open>emitError\<close>, the stage throws a TypeError when the input ends and pushes
  nothing.
\<close>

theorem getConcater_no_parser_concatenates:
  assumes "chunks \<noteq> []" and "\<not> truthy p"
  shows "concater_run toString p False chunks =
           Inr (replicate (length chunks) (Callback JUndefined),
                [Push (JBuffer (concat chunks)), Callback JUndefined])
    \<and> (\<forall>n. pushed (take n (replicate (length chunks) (Callback JUndefined))) = [])
    \<and> (\<forall>n. fst (observe False Transforming False
                  (take n (replicate (length chunks) (Callback JUndefined)))) = [])
    \<and> pushed [Push (JBuffer (concat chunks)), Callback JUndefined] = [JBuffer (concat chunks)]
    \<and> concater_events toString p False chunks =
         Inr ((if concat chunks = [] then [] else [Data (JBuffer (concat chunks))]) @ [End])
    \<and> concater_run toString p True chunks =
         Inl (JObject (TypeError ''parser is not a function''))
    \<and> concater_events toString p True chunks =
         Inl (JObject (TypeError ''parser is not a function''))"
proof -
  have run: "concater_run toString p False chunks =
           Inr (replicate (length chunks) (Callback JUndefined),
                [Push (JBuffer (concat chunks)), Callback JUndefined])"
    using assms by (simp add: concater_run_no_parser)
  have ev: "concater_events toString p False chunks =
         Inr ((if concat chunks = [] then [] else [Data (JBuffer (concat chunks))]) @ [End])"
    using assms(2)
    by (simp add: concater_events_def run stream_events_def observe_callbacks)
  have thrown: "concater_run toString p True chunks =
         Inl (JObject (TypeError ''parser is not a function''))"
    using assms(2)
    by (simp add: concater_run_def getConcater_accepts concater_feed concater_flush_def
        call_function_falsy)
  then have thrown_ev: "concater_events toString p True chunks =
         Inl (JObject (TypeError ''parser is not a function''))"
    by (simp add: concater_events_def)
  from run ev thrown thrown_ev show ?thesis
    by (simp add: pushed_callbacks observe_callbacks)
qed

theorem getConcater_no_parser_concatenates_witness:
  "[[1, 2], [], [3 :: byte]] \<noteq> [] \<and> \<not> truthy JUndefined
   \<and> concater_run latin1 JUndefined False [[1, 2], [], [3]] =
     Inr ([Callback JUndefined, Callback JUndefined, Callback JUndefined],
          [Push (JBuffer [1, 2, 3]), Callback JUndefined])
   \<and> concater_events latin1 JUndefined False [[1, 2], [], [3]] =
     Inr [Data (JBuffer [1, 2, 3]), End]"
  using getConcater_no_parser_concatenates [of "[[1, 2], [], [3]]" JUndefined latin1]
  by simp

theorem getConcater_no_parser_concatenates_counterexample:
  "concater_run latin1 JUndefined True [[1]] =
     Inl (JObject (TypeError ''parser is not a function''))
   \<and> concater_run latin1 JUndefined False [[]] =
     Inr ([Callback JUndefined], [Push (JBuffer []), Callback JUndefined])
   \<and> concater_events latin1 JUndefined False [[]] = Inr [End]"
  by (simp add: concater_events_def concater_run_def getConcater_def concater_transform_def
      concater_flush_def stream_events_def)

text \<open>
  C5, as amended. On an input that ends before any chunk: a concatenator without a parser
  pushes nothing; one with a parser and without \<open>emitError\<close> pushes nothing either;
  one with a parser and \<open>emitError\<close> calls the parser on the text of the empty buffer
  (the empty string), hands the result to the callback as its error argument, never as
  data, and pushes the end of the stream. A result that counts as true is then an error
  of the stream, followed by its end; a result that counts as false leaves the end only.
\<close>

theorem getConcater_empty_input:
  "(\<not> truthy p \<longrightarrow>
       concater_run toString p False [] = Inr ([], [Callback JUndefined])
     \<and> concater_events toString p False [] = Inr [End]
     \<and> concater_run toString p True [] = Inl (JObject (TypeError ''parser is not a function'')))
   \<and> concater_run toString (JFunction f) False [] = Inr ([], [Callback JUndefined])
   \<and> concater_events toString (JFunction f) False [] = Inr [End]
   \<and> (toString [] = [] \<longrightarrow>
       concater_run toString (JFunction f) True [] = Inr ([], [Callback (f []), Push JNull])
     \<and> pushed [Callback (f []), Push JNull] = []
     \<and> concater_events toString (JFunction f) True [] =
           Inr (if truthy (f []) then [Error (f []), End] else [End]))"
proof -
  have none: "\<not> truthy p \<longrightarrow>
       concater_run toString p False [] = Inr ([], [Callback JUndefined])
     \<and> concater_events toString p False [] = Inr [End]
     \<and> concater_run toString p True [] = Inl (JObject (TypeError ''parser is not a function''))"
    by (simp add: concater_events_def concater_run_no_parser stream_events_def)
      (simp add: concater_run_def getConcater_accepts concater_flush_def call_function_falsy)
  have quiet: "concater_run toString (JFunction f) False [] = Inr ([], [Callback JUndefined])
     \<and> concater_events toString (JFunction f) False [] = Inr [End]"
    by (simp add: concater_events_def concater_run_parser stream_events_def)
  have loud: "toString [] = [] \<longrightarrow>
       concater_run toString (JFunction f) True [] = Inr ([], [Callback (f []), Push JNull])
     \<and> pushed [Callback (f []), Push JNull] = []
     \<and> concater_events toString (JFunction f) True [] =
           Inr (if truthy (f []) then [Error (f []), End] else [End])"
    by (simp add: concater_events_def concater_run_parser stream_events_def)
  from none quiet loud show ?thesis by blast
qed

theorem getConcater_empty_input_witness:
  "\<not> truthy JUndefined \<and> latin1 [] = []
   \<and> concater_events latin1 JUndefined False [] = Inr [End]
   \<and> concater_events latin1 (constant_parser (JObject (S3Error ''Not Found''))) True [] =
         Inr [Error (JObject (S3Error ''Not Found'')), End]"
  using getConcater_empty_input [of JUndefined latin1 "\<lambda>text. JObject (S3Error ''Not Found'')"]
  by (simp add: latin1_def constant_parser_def)

theorem getConcater_empty_input_counterexample:
  "concater_run latin1 (constant_parser JNull) True [] = Inr ([], [Callback JNull, Push JNull])
   \<and> concater_events latin1 (constant_parser JNull) True [] = Inr [End]"
  by (simp add: concater_events_def concater_run_parser stream_events_def constant_parser_def
      latin1_def)

text \<open>
  C10. In a concatenator with a parser and \<open>emitError\<close>, the result of the parser on
  the concatenated text is the error argument of the flush callback. When that result
  counts as false, the stream ends with no error and no data item; it is an error of the
  stream exactly when the result counts as true.
\<close>

theorem getConcater_emitError_falsy:
  "concater_run toString (JFunction f) True chunks =
     Inr (replicate (length chunks) (Callback JUndefined),
          [Callback (f (toString (concat chunks))), Push JNull])
   \<and> (\<not> truthy (f (toString (concat chunks))) \<longrightarrow>
        concater_events toString (JFunction f) True chunks = Inr [End])
   \<and> (truthy (f (toString (concat chunks))) \<longrightarrow>
        concater_events toString (JFunction f) True chunks =
          Inr [Error (f (toString (concat chunks))), End])"
  by (simp add: concater_events_def concater_run_parser stream_events_def observe_callbacks)

theorem getConcater_emitError_falsy_witness:
  "\<not> truthy JUndefined \<and> truthy (JStr ''failed'')
   \<and> concater_events latin1 (constant_parser JUndefined) True [[60, 47], [62]] = Inr [End]
   \<and> concater_events latin1 (constant_parser (JStr ''failed'')) True [[60, 47], [62]] =
         Inr [Error (JStr ''failed''), End]"
  using getConcater_emitError_falsy [of latin1 "\<lambda>text. JUndefined" "[[60, 47], [62]]"]
    getConcater_emitError_falsy [of latin1 "\<lambda>text. JStr ''failed''" "[[60, 47], [62]]"]
  by (simp add: constant_parser_def)

text \<open>
  C9, as amended. Making a concatenator with a parser that counts as true and is not a
  function throws a TypeError at once, before any chunk is taken. A parser that counts
  as false (undefined, null, false, 0, the empty string) is taken as no parser, and the
  construction succeeds.
\<close>

theorem getConcater_parser_check:
  \<open>(truthy p \<and> \<not> isFunction p \<longrightarrow>
       getConcater p e = Inl (JObject (TypeError ''parser should be of type "function"''))
     \<and> concater_run toString p e chunks =
           Inl (JObject (TypeError ''parser should be of type "function"'')))
   \<and> (\<not> truthy p \<or> isFunction p \<longrightarrow>
       getConcater p e = Inr \<lparr>objectMode = truthy p, parser = p, emitError = e, bufs = []\<rparr>)\<close>
  by (simp add: concater_run_def getConcater_def)

theorem getConcater_parser_check_witness:
  \<open>truthy (JStr ''xml'') \<and> \<not> isFunction (JStr ''xml'')
   \<and> concater_run latin1 (JStr ''xml'') False [[1]] =
         Inl (JObject (TypeError ''parser should be of type "function"''))
   \<and> isFunction (constant_parser JNull)
   \<and> getConcater (constant_parser JNull) True =
         Inr \<lparr>objectMode = True, parser = constant_parser JNull, emitError = True, bufs = []\<rparr>\<close>
  using getConcater_parser_check [of "JStr ''xml''" False latin1 "[[1]]"]
    getConcater_parser_check [of "constant_parser JNull" True latin1 "[]"]
  by (simp add: constant_parser_def)

theorem getConcater_parser_check_counterexample:
  "\<not> isFunction (JNum 0)
   \<and> getConcater (JNum 0) False =
         Inr \<lparr>objectMode = False, parser = JNum 0, emitError = False, bufs = []\<rparr>
   \<and> concater_run latin1 (JNum 0) False [[1]] =
         Inr ([Callback JUndefined], [Push (JBuffer [1]), Callback JUndefined])"
  by (simp add: concater_run_no_parser getConcater_def)

section \<open>The error transformer\<close>

lemma headerInfo_fields:
  "headerInfo r =
     [(''amzRequestid'', if headersSent r then getHeader r ''x-amz-request-id'' else JNull),
      (''amzId2'', if headersSent r then getHeader r ''x-amz-id-2'' else JNull),
      (''amzBucketRegion'', if headersSent r then getHeader r ''x-amz-bucket-region'' else JNull)]"
  by (simp add: headerInfo_def)

lemma error_parser_empty:
  "error_parser parseError code message
     [(''amzRequestid'', a), (''amzId2'', b), (''amzBucketRegion'', c)] [] =
   JObject [(''name'', JStr ''S3Error''), (''message'', JStr message), (''code'', JStr code),
            (''amzRequestid'', a), (''amzId2'', b), (''amzBucketRegion'', c)]"
  by (simp add: error_parser_def S3Error_def new_error_def)

lemma getErrorTransformer_eq:
  "getErrorTransformer parseError r =
     Inr \<lparr>objectMode = True,
          parser = JFunction (error_parser parseError (fst (code_message (statusCode r)))
                     (snd (code_message (statusCode r))) (headerInfo r)),
          emitError = True, bufs = []\<rparr>"
  by (simp add: getErrorTransformer_def getConcater_def split_beta)

text \<open>
  C1. \<open>getErrorTransformer\<close> maps the status code of the response to a kind and a
  message: 301 to MovedPermanently, 307 to TemporaryRedirect, 403 to AccessDenied, 404 to
  NotFound, 405 and 501 to MethodNotAllowed, each with its fixed message, and any other
  status code to UnknownError with the decimal form of the status code as the message
  (digits only, which read back as the status code); 418 gives UnknownError and "418".
  The error that the transformer builds on an empty body carries this kind as its code,
  and this message.
\<close>

theorem getErrorTransformer_code_message:
  "code_message 301 = (''MovedPermanently'', ''Moved Permanently'')
   \<and> code_message 307 = (''TemporaryRedirect'', ''Are you using the correct endpoint URL?'')
   \<and> code_message 403 = (''AccessDenied'', ''Valid and authorized credentials required'')
   \<and> code_message 404 = (''NotFound'', ''Not Found'')
   \<and> code_message 405 = (''MethodNotAllowed'', ''Method Not Allowed'')
   \<and> code_message 501 = (''MethodNotAllowed'', ''Method Not Allowed'')
   \<and> (sc \<notin> {301, 307, 403, 404, 405, 501}
        \<longrightarrow> code_message sc = (''UnknownError'', number_to_string sc))
   \<and> (0 \<le> sc \<longrightarrow> read_decimal (number_to_string sc) = nat sc
                    \<and> set (number_to_string sc) \<subseteq> set ''0123456789'')
   \<and> code_message 418 = (''UnknownError'', ''418'')
   \<and> (\<exists>c e. getErrorTransformer parseError r = Inr c
          \<and> call_function (parser c) [] = Inr (JObject e)
          \<and> get_prop e ''code'' = JStr (fst (code_message (statusCode r)))
          \<and> get_prop e ''message'' = JStr (snd (code_message (statusCode r))))"
proof -
  have table: "code_message 301 = (''MovedPermanently'', ''Moved Permanently'')
   \<and> code_message 307 = (''TemporaryRedirect'', ''Are you using the correct endpoint URL?'')
   \<and> code_message 403 = (''AccessDenied'', ''Valid and authorized credentials required'')
   \<and> code_message 404 = (''NotFound'', ''Not Found'')
   \<and> code_message 405 = (''MethodNotAllowed'', ''Method Not Allowed'')
   \<and> code_message 501 = (''MethodNotAllowed'', ''Method Not Allowed'')
   \<and> (sc \<notin> {301, 307, 403, 404, 405, 501}
        \<longrightarrow> code_message sc = (''UnknownError'', number_to_string sc))
   \<and> code_message 418 = (''UnknownError'', ''418'')"
    by (simp add: code_message_def number_to_string_418)
  have dec: "0 \<le> sc \<longrightarrow> read_decimal (number_to_string sc) = nat sc
                    \<and> set (number_to_string sc) \<subseteq> set ''0123456789''"
    using read_decimal_decimal [of "nat sc"] decimal_digits [of "nat sc"]
    by (simp add: number_to_string_def del: read_decimal.simps)
  have "call_function (JFunction (error_parser parseError (fst (code_message (statusCode r)))
                     (snd (code_message (statusCode r))) (headerInfo r))) [] =
     Inr (JObject [(''name'', JStr ''S3Error''),
                   (''message'', JStr (snd (code_message (statusCode r)))),
                   (''code'', JStr (fst (code_message (statusCode r)))),
                   (''amzRequestid'', if headersSent r then getHeader r ''x-amz-request-id'' else JNull),
                   (''amzId2'', if headersSent r then getHeader r ''x-amz-id-2'' else JNull),
                   (''amzBucketRegion'', if headersSent r then getHeader r ''x-amz-bucket-region'' else JNull)])"
    by (simp only: headerInfo_fields error_parser_empty call_function.simps)
  then have installed: "\<exists>c e. getErrorTransformer parseError r = Inr c
          \<and> call_function (parser c) [] = Inr (JObject e)
          \<and> get_prop e ''code'' = JStr (fst (code_message (statusCode r)))
          \<and> get_prop e ''message'' = JStr (snd (code_message (statusCode r)))"
    by (simp add: getErrorTransformer_eq get_prop_def)
  from table dec installed show ?thesis by blast
qed

theorem getErrorTransformer_code_message_witness:
  "(200::int) \<notin> {301, 307, 403, 404, 405, 501} \<and> (0::int) \<le> 200
   \<and> code_message 200 = (''UnknownError'', ''200'')
   \<and> read_decimal ''200'' = 200"
  using getErrorTransformer_code_message [of 200]
  by (simp add: number_to_string_def digit_def)

text \<open>
  C3. The parser that \<open>getErrorTransformer\<close> gives to its concatenator (made with
  \<open>emitError\<close>), on the empty text, builds the S3Error of the status code: the message
  and the code of the status code, and the three header fields, each read from the
  response when \<open>headersSent\<close> holds and null otherwise. On any other text it returns
  what \<open>parseError\<close> returns on that text and these header fields.
\<close>

theorem getErrorTransformer_parser:
  assumes "hdr = (\<lambda>name. if headersSent r then getHeader r name else JNull)"
    and "hinfo = [(''amzRequestid'', hdr ''x-amz-request-id''),
                  (''amzId2'', hdr ''x-amz-id-2''),
                  (''amzBucketRegion'', hdr ''x-amz-bucket-region'')]"
    and "err = JObject ([(''name'', JStr ''S3Error''),
                         (''message'', JStr (snd (code_message (statusCode r)))),
                         (''code'', JStr (fst (code_message (statusCode r))))] @ hinfo)"
  shows "(\<exists>c. getErrorTransformer parseError r = Inr c
            \<and> emitError c \<and> objectMode c \<and> bufs c = []
            \<and> call_function (parser c) [] = Inr err
            \<and> (\<forall>xml. xml \<noteq> [] \<longrightarrow>
                  call_function (parser c) xml = Inr (parseError xml (JObject hinfo))))
    \<and> (\<not> headersSent r \<longrightarrow>
          getErrorTransformer parseError (r\<lparr>getHeader := g\<rparr>) = getErrorTransformer parseError r)
    \<and> (toString (concat chunks) = [] \<longrightarrow>
          errorTransformer_events toString parseError r chunks = Inr [Error err, End])
    \<and> (toString (concat chunks) \<noteq> [] \<longrightarrow>
          errorTransformer_events toString parseError r chunks =
            Inr (if truthy (parseError (toString (concat chunks)) (JObject hinfo))
                 then [Error (parseError (toString (concat chunks)) (JObject hinfo)), End]
                 else [End]))"
proof -
  obtain code message where cm: "code_message (statusCode r) = (code, message)"
    by (cases "code_message (statusCode r)")
  let ?f = "error_parser parseError code message (headerInfo r)"
  have h: "headerInfo r = hinfo"
    by (simp add: headerInfo_fields assms(1,2))
  have t: "getErrorTransformer parseError r =
      Inr \<lparr>objectMode = True, parser = JFunction ?f, emitError = True, bufs = []\<rparr>"
    by (simp add: getErrorTransformer_def cm getConcater_def)
  have empty: "?f [] = err"
    unfolding h unfolding assms(2) error_parser_empty by (simp add: assms(2,3) cm)
  have body: "\<forall>xml. xml \<noteq> [] \<longrightarrow> ?f xml = parseError xml (JObject hinfo)"
    by (simp add: error_parser_def h)
  have unread: "\<not> headersSent r \<longrightarrow>
      getErrorTransformer parseError (r\<lparr>getHeader := g\<rparr>) = getErrorTransformer parseError r"
    by (auto simp: getErrorTransformer_def headerInfo_fields)
  have run: "errorTransformer_events toString parseError r chunks =
      Inr (if truthy (?f (toString (concat chunks)))
           then [Error (?f (toString (concat chunks))), End] else [End])"
    by (simp add: errorTransformer_events_def t concater_feed concater_flush_def
        stream_events_def observe_callbacks)
  have run_empty: "toString (concat chunks) = [] \<longrightarrow>
          errorTransformer_events toString parseError r chunks = Inr [Error err, End]"
    using empty by (simp add: run assms(3))
  have run_body: "toString (concat chunks) \<noteq> [] \<longrightarrow>
          errorTransformer_events toString parseError r chunks =
            Inr (if truthy (parseError (toString (concat chunks)) (JObject hinfo))
                 then [Error (parseError (toString (concat chunks)) (JObject hinfo)), End]
                 else [End])"
    using body by (simp add: run)
  from t empty body unread run_empty run_body show ?thesis
    by simp
qed

theorem getErrorTransformer_parser_witness:
  "errorTransformer_events latin1 (\<lambda>xml h. JObject [(''body'', JStr xml), (''headers'', h)])
     \<lparr>statusCode = 403, headersSent = False, getHeader = (\<lambda>name. JStr name)\<rparr> [[60], [47, 62]] =
     Inr [Error (JObject [(''body'', JStr (latin1 [60, 47, 62])),
                          (''headers'', JObject [(''amzRequestid'', JNull), (''amzId2'', JNull),
                                                 (''amzBucketRegion'', JNull)])]), End]
   \<and> errorTransformer_events latin1 (\<lambda>xml h. JObject [(''body'', JStr xml), (''headers'', h)])
     \<lparr>statusCode = 404, headersSent = True, getHeader = (\<lambda>name. JStr name)\<rparr> [] =
     Inr [Error (JObject [(''name'', JStr ''S3Error''), (''message'', JStr ''Not Found''),
                          (''code'', JStr ''NotFound''),
                          (''amzRequestid'', JStr ''x-amz-request-id''),
                          (''amzId2'', JStr ''x-amz-id-2''),
                          (''amzBucketRegion'', JStr ''x-amz-bucket-region'')]), End]"
  using getErrorTransformer_parser [OF refl refl refl,
      where r = "\<lparr>statusCode = 403, headersSent = False, getHeader = (\<lambda>name. JStr name)\<rparr>"
        and parseError = "\<lambda>xml h. JObject [(''body'', JStr xml), (''headers'', h)]"
        and toString = latin1 and chunks = "[[60], [47, 62]]"]
    getErrorTransformer_parser [OF refl refl refl,
      where r = "\<lparr>statusCode = 404, headersSent = True, getHeader = (\<lambda>name. JStr name)\<rparr>"
        and parseError = "\<lambda>xml h. JObject [(''body'', JStr xml), (''headers'', h)]"
        and toString = latin1 and chunks = "[]"]
  by (simp add: latin1_def code_message_def)

section \<open>The size limiter\<close>

lemma limiter_transform_nonneg:
  assumes "0 \<le> sizeRemaining s"
  shows "limiter_transform s chunk =
     ([Push (JBuffer (take (nat (sizeRemaining s)) chunk))]
      @ (if sizeRemaining s \<le> int (length chunk) then [Unpipe Stream, Unpipe Chunker, Push JNull] else [])
      @ [Callback JUndefined],
      s\<lparr>sizeRemaining := sizeRemaining s - min (int (length chunk)) (sizeRemaining s)\<rparr>)"
  using assms by (auto simp: limiter_transform_def slice0_def Let_def min_def)

lemma limiter_transform_size_arg: "size_arg (snd (limiter_transform s chunk)) = size_arg s"
  by (simp add: limiter_transform_def Let_def)

lemma limiter_feed_size_arg: "size_arg (snd (feed limiter_transform s chunks)) = size_arg s"
  by (induction chunks arbitrary: s) (simp_all add: split_beta Let_def limiter_transform_size_arg)

lemma limiter_feed_remaining:
  "0 \<le> sizeRemaining s \<Longrightarrow>
   sizeRemaining (snd (feed limiter_transform s chunks))
     = max 0 (sizeRemaining s - int (length (concat chunks)))"
proof (induction chunks arbitrary: s)
  case Nil
  then show ?case by simp
next
  case (Cons c cs)
  let ?s' = "snd (limiter_transform s c)"
  have r: "sizeRemaining ?s' = sizeRemaining s - min (int (length c)) (sizeRemaining s)"
    using Cons.prems by (simp add: limiter_transform_nonneg)
  then have "0 \<le> sizeRemaining ?s'" using Cons.prems by simp
  from Cons.IH [OF this] r show ?case
    by (simp add: split_beta Let_def)
qed

lemma limiter_feed_forwarded:
  "0 \<le> sizeRemaining s \<Longrightarrow>
   int (forwarded (fst (feed limiter_transform s chunks)))
     = min (sizeRemaining s) (int (length (concat chunks)))"
proof (induction chunks arbitrary: s)
  case Nil
  then show ?case by simp
next
  case (Cons c cs)
  define k where "k = min (int (length c)) (sizeRemaining s)"
  define s' where "s' = s\<lparr>sizeRemaining := sizeRemaining s - k\<rparr>"
  have k: "0 \<le> k" "k \<le> sizeRemaining s" "k \<le> int (length c)"
    using Cons.prems by (simp_all add: k_def)
  have t: "limiter_transform s c =
     ([Push (JBuffer (take (nat (sizeRemaining s)) c))]
      @ (if sizeRemaining s \<le> int (length c) then [Unpipe Stream, Unpipe Chunker, Push JNull] else [])
      @ [Callback JUndefined], s')"
    using Cons.prems by (simp add: limiter_transform_nonneg s'_def k_def)
  have "0 \<le> sizeRemaining s'" using k by (simp add: s'_def)
  from Cons.IH [OF this]
  have ih: "int (forwarded (fst (feed limiter_transform s' cs)))
     = min (sizeRemaining s - k) (int (length (concat cs)))"
    by (simp add: s'_def)
  have "forwarded (fst (feed limiter_transform s (c # cs)))
     = length (take (nat (sizeRemaining s)) c) + forwarded (fst (feed limiter_transform s' cs))"
    by (simp add: t split_beta)
  also have "int \<dots> = k + min (sizeRemaining s - k) (int (length (concat cs)))"
    using Cons.prems by (auto simp: ih k_def min_def)
  also have "\<dots> = min (sizeRemaining s) (int (length (concat (c # cs))))"
    using k by (auto simp: k_def min_def)
  finally show ?case .
qed

lemma limiter_feed_short:
  "int (length (concat chunks)) < sizeRemaining s \<Longrightarrow>
   feed limiter_transform s chunks =
     (concat (map (\<lambda>c. [Push (JBuffer c), Callback JUndefined]) chunks),
      s\<lparr>sizeRemaining := sizeRemaining s - int (length (concat chunks))\<rparr>)"
proof (induction chunks arbitrary: s)
  case Nil
  then show ?case by simp
next
  case (Cons c cs)
  have t: "limiter_transform s c =
      ([Push (JBuffer c), Callback JUndefined], s\<lparr>sizeRemaining := sizeRemaining s - int (length c)\<rparr>)"
    using Cons.prems by (simp add: limiter_transform_def Let_def min_def)
  have "int (length (concat cs)) < sizeRemaining (s\<lparr>sizeRemaining := sizeRemaining s - int (length c)\<rparr>)"
    using Cons.prems by simp
  from Cons.IH [OF this] show ?case
    by (simp add: t diff_diff_eq)
qed

lemma observe_forwarded_chunks:
  "observe True Transforming False
     (concat (map (\<lambda>c. [Push (JBuffer c), Callback JUndefined]) chunks))
   = (map (\<lambda>c. Data (JBuffer c)) chunks, False)"
  by (induction chunks) simp_all

text \<open>
  C2. A size limiter made for \<open>n\<close> bytes, on each chunk, pushes the first
  \<open>min (length chunk) remaining\<close> bytes of the chunk (the whole chunk when it fits)
  and takes that many from the counter, which never goes below zero; when the counter is
  zero after that, it unpipes both producers and pushes the end of the stream. With
  \<open>n = 5\<close> and chunks of 3 and 4 bytes it pushes the first chunk as it is, then the first
  2 bytes of the second, unpipes both producers and ends: 5 bytes in all.
\<close>

theorem getSizeLimiter_chunk:
  assumes "0 \<le> n" and "s = snd (limiter_feed n before)"
    and "k = min (length chunk) (nat (sizeRemaining s))"
  shows "0 \<le> sizeRemaining s
    \<and> limiter_transform s chunk =
        ([Push (JBuffer (take k chunk))]
         @ (if sizeRemaining s - int k = 0 then [Unpipe Stream, Unpipe Chunker, Push JNull] else [])
         @ [Callback JUndefined],
         s\<lparr>sizeRemaining := sizeRemaining s - int k\<rparr>)
    \<and> (length chunk \<le> nat (sizeRemaining s) \<longrightarrow> take k chunk = chunk)
    \<and> 0 \<le> sizeRemaining s - int k
    \<and> int (forwarded (fst (limiter_feed n before))) = min n (int (length (concat before)))
    \<and> limiter_feed 5 [[a, b, c], [d, e, f, g]] =
        ([Push (JBuffer [a, b, c]), Callback JUndefined,
          Push (JBuffer [d, e]), Unpipe Stream, Unpipe Chunker, Push JNull, Callback JUndefined],
         \<lparr>size_arg = 5, sizeRemaining = 0\<rparr>)
    \<and> forwarded (fst (limiter_feed 5 [[a, b, c], [d, e, f, g]])) = 5
    \<and> stream_events True (fst (limiter_feed 5 [[a, b, c], [d, e, f, g]])) [] =
        [Data (JBuffer [a, b, c]), Data (JBuffer [d, e]), Unpiped Stream, Unpiped Chunker, End]"
proof -
  have init: "0 \<le> sizeRemaining (getSizeLimiter n)"
    using assms(1) by (simp add: getSizeLimiter_def)
  have r: "sizeRemaining s = max 0 (n - int (length (concat before)))"
    using limiter_feed_remaining [OF init, of before]
    by (simp add: assms(2) limiter_feed_def getSizeLimiter_def)
  then have nonneg: "0 \<le> sizeRemaining s" by simp
  have k: "int k = min (int (length chunk)) (sizeRemaining s)"
    using nonneg by (auto simp: assms(3) min_def)
  have tk: "take (nat (sizeRemaining s)) chunk = take k chunk"
    by (auto simp: assms(3) min_def)
  have step: "limiter_transform s chunk =
        ([Push (JBuffer (take k chunk))]
         @ (if sizeRemaining s - int k = 0 then [Unpipe Stream, Unpipe Chunker, Push JNull] else [])
         @ [Callback JUndefined],
         s\<lparr>sizeRemaining := sizeRemaining s - int k\<rparr>)"
    unfolding limiter_transform_nonneg [OF nonneg] tk k by (simp add: min_def)
  have unmodified: "length chunk \<le> nat (sizeRemaining s) \<longrightarrow> take k chunk = chunk"
    by (simp add: assms(3))
  have after: "0 \<le> sizeRemaining s - int k"
    using nonneg by (simp add: k)
  have total: "int (forwarded (fst (limiter_feed n before))) = min n (int (length (concat before)))"
    using limiter_feed_forwarded [OF init, of before]
    by (simp add: limiter_feed_def getSizeLimiter_def)
  have ex: "limiter_feed 5 [[a, b, c], [d, e, f, g]] =
        ([Push (JBuffer [a, b, c]), Callback JUndefined,
          Push (JBuffer [d, e]), Unpipe Stream, Unpipe Chunker, Push JNull, Callback JUndefined],
         \<lparr>size_arg = 5, sizeRemaining = 0\<rparr>)"
    by (simp add: limiter_feed_def getSizeLimiter_def limiter_transform_def slice0_def Let_def)
  have ex_total: "forwarded (fst (limiter_feed 5 [[a, b, c], [d, e, f, g]])) = 5"
    by (simp add: ex)
  have ex_events: "stream_events True (fst (limiter_feed 5 [[a, b, c], [d, e, f, g]])) [] =
        [Data (JBuffer [a, b, c]), Data (JBuffer [d, e]), Unpiped Stream, Unpiped Chunker, End]"
    by (simp add: ex stream_events_def)
  from nonneg step unmodified after total ex ex_total ex_events show ?thesis by blast
qed

theorem getSizeLimiter_chunk_witness:
  "(0::int) \<le> 5
   \<and> limiter_transform (snd (limiter_feed 5 [[1, 2, 3]])) [4, 5, 6, 7] =
        ([Push (JBuffer [4, 5]), Unpipe Stream, Unpipe Chunker, Push JNull, Callback JUndefined],
         \<lparr>size_arg = 5, sizeRemaining = 0\<rparr>)
   \<and> limiter_transform (snd (limiter_feed 5 [])) [1, 2, 3] =
        ([Push (JBuffer [1, 2, 3]), Callback JUndefined], \<lparr>size_arg = 5, sizeRemaining = 2\<rparr>)"
  using getSizeLimiter_chunk [OF _ refl refl, of 5 "[[1, 2, 3]]" "[4, 5, 6, 7]"]
    getSizeLimiter_chunk [OF _ refl refl, of 5 "[]" "[1, 2, 3]"]
  by (simp add: limiter_feed_def getSizeLimiter_def limiter_transform_def Let_def slice0_def)

text \<open>
  C7. When the input of a size limiter made for \<open>n\<close> bytes ends while its counter is
  not zero, the stage fails: it calls back with an IncorrectSizeError whose message
  names \<open>n\<close> (the input ends after 7 bytes of 10: the message ends in "(10)"). When
  the counter is zero it pushes the end of the stream and calls back without an error.
\<close>

theorem getSizeLimiter_flush:
  assumes "s = snd (limiter_feed n chunks)"
  shows "(sizeRemaining s \<noteq> 0 \<longrightarrow>
            limiter_flush s =
              [Callback (JObject (IncorrectSizeError
                 (''size of the input stream is not equal to the expected size(''
                  @ number_to_string n @ '')'')))]
          \<and> observe True Flushing ended (limiter_flush s) =
              ([Error (JObject (IncorrectSizeError
                 (''size of the input stream is not equal to the expected size(''
                  @ number_to_string n @ '')'')))], ended))
    \<and> (sizeRemaining s = 0 \<longrightarrow>
            limiter_flush s = [Push JNull, Callback JUndefined]
          \<and> observe True Flushing ended (limiter_flush s) = (if ended then [] else [End], True))
    \<and> (0 \<le> n \<longrightarrow> (sizeRemaining s \<noteq> 0) = (int (length (concat chunks)) < n))
    \<and> (length (concat cs) = 7 \<longrightarrow>
          limiter_events 10 cs =
            map (\<lambda>c. Data (JBuffer c)) cs
            @ [Error (JObject (IncorrectSizeError
                 ''size of the input stream is not equal to the expected size(10)''))])"
proof -
  have arg: "size_arg s = n"
    by (simp add: assms limiter_feed_def limiter_feed_size_arg getSizeLimiter_def)
  have fail: "sizeRemaining s \<noteq> 0 \<longrightarrow>
            limiter_flush s =
              [Callback (JObject (IncorrectSizeError
                 (''size of the input stream is not equal to the expected size(''
                  @ number_to_string n @ '')'')))]
          \<and> observe True Flushing ended (limiter_flush s) =
              ([Error (JObject (IncorrectSizeError
                 (''size of the input stream is not equal to the expected size(''
                  @ number_to_string n @ '')'')))], ended)"
    by (simp add: limiter_flush_def arg)
  have ok: "sizeRemaining s = 0 \<longrightarrow>
            limiter_flush s = [Push JNull, Callback JUndefined]
          \<and> observe True Flushing ended (limiter_flush s) = (if ended then [] else [End], True)"
    by (simp add: limiter_flush_def)
  have count: "0 \<le> n \<longrightarrow> (sizeRemaining s \<noteq> 0) = (int (length (concat chunks)) < n)"
  proof
    assume "0 \<le> n"
    then have "0 \<le> sizeRemaining (getSizeLimiter n)" by (simp add: getSizeLimiter_def)
    from limiter_feed_remaining [OF this, of chunks]
    have "sizeRemaining s = max 0 (n - int (length (concat chunks)))"
      by (simp add: assms limiter_feed_def getSizeLimiter_def)
    then show "(sizeRemaining s \<noteq> 0) = (int (length (concat chunks)) < n)" by auto
  qed
  have example: "length (concat cs) = 7 \<longrightarrow>
          limiter_events 10 cs =
            map (\<lambda>c. Data (JBuffer c)) cs
            @ [Error (JObject (IncorrectSizeError
                 ''size of the input stream is not equal to the expected size(10)''))]"
  proof
    assume len: "length (concat cs) = 7"
    then have "int (length (concat cs)) < sizeRemaining (getSizeLimiter 10)"
      by (simp add: getSizeLimiter_def)
    from limiter_feed_short [OF this]
    have "limiter_feed 10 cs =
        (concat (map (\<lambda>c. [Push (JBuffer c), Callback JUndefined]) cs),
         \<lparr>size_arg = 10, sizeRemaining = 3\<rparr>)"
      by (simp add: limiter_feed_def getSizeLimiter_def len)
    then show "limiter_events 10 cs =
            map (\<lambda>c. Data (JBuffer c)) cs
            @ [Error (JObject (IncorrectSizeError
                 ''size of the input stream is not equal to the expected size(10)''))]"
      by (simp add: limiter_events_def stream_events_def observe_forwarded_chunks
          limiter_flush_def number_to_string_10)
  qed
  from fail ok count example show ?thesis by blast
qed

theorem getSizeLimiter_flush_witness:
  "limiter_flush (snd (limiter_feed 10 [[1, 2, 3], [4, 5, 6, 7]])) =
     [Callback (JObject (IncorrectSizeError
        ''size of the input stream is not equal to the expected size(10)''))]
   \<and> limiter_events 10 [[1, 2, 3], [4, 5, 6, 7]] =
     [Data (JBuffer [1, 2, 3]), Data (JBuffer [4, 5, 6, 7]),
      Error (JObject (IncorrectSizeError
        ''size of the input stream is not equal to the expected size(10)''))]
   \<and> limiter_flush (snd (limiter_feed 3 [[1, 2, 3]])) = [Push JNull, Callback JUndefined]
   \<and> limiter_events 3 [[1, 2, 3]] =
     [Data (JBuffer [1, 2, 3]), Unpiped Stream, Unpiped Chunker, End]"
  using getSizeLimiter_flush [OF refl, of 10 "[[1, 2, 3], [4, 5, 6, 7]]" False "[[1, 2, 3], [4, 5, 6, 7]]"]
    getSizeLimiter_flush [OF refl, of 3 "[[1, 2, 3]]" True "[]"]
  by (simp add: limiter_feed_def getSizeLimiter_def limiter_transform_def Let_def slice0_def
      limiter_flush_def limiter_events_def stream_events_def number_to_string_10)

section \<open>The hash summer\<close>

lemma summer_feed_calls:
  "fst (feed summer_transform s chunks) = replicate (length chunks) (Callback JUndefined)"
  by (induction chunks arbitrary: s) (simp_all add: summer_transform_def Let_def split_beta)

lemma summer_feed_state:
  "snd (feed summer_transform s chunks) =
     s\<lparr>md5 := (md5 s)\<lparr>absorbed := absorbed (md5 s) @ concat chunks\<rparr>,
       sha256 := (if anonymous s then sha256 s
                  else (sha256 s)\<lparr>absorbed := absorbed (sha256 s) @ concat chunks\<rparr>)\<rparr>"
  by (induction chunks arbitrary: s)
    (simp_all add: summer_transform_def update_def Let_def split_beta)

lemma summer_flush_feed:
  "summer_flush digest (snd (summer_feed a chunks)) =
     [Push (JObject ((''md5sum'', JStr (digest ''md5'' (concat chunks) ''base64''))
                     # (if a then []
                        else [(''sha256sum'', JStr (digest ''sha256'' (concat chunks) ''hex''))]))),
      Push JNull]"
  by (simp add: summer_feed_def summer_feed_state getHashSummer_def createHash_def
      summer_flush_def Let_def)

lemma summer_events_feed:
  "summer_events digest a chunks =
     [Data (JObject ((''md5sum'', JStr (digest ''md5'' (concat chunks) ''base64''))
                     # (if a then []
                        else [(''sha256sum'', JStr (digest ''sha256'' (concat chunks) ''hex''))]))),
      End]"
proof -
  have "fst (summer_feed a chunks) = replicate (length chunks) (Callback JUndefined)"
    by (simp add: summer_feed_def summer_feed_calls)
  then have "summer_events digest a chunks =
      stream_events True (replicate (length chunks) (Callback JUndefined))
        (summer_flush digest (snd (summer_feed a chunks)))"
    by (simp add: summer_events_def split_beta)
  then show ?thesis
    by (simp add: summer_flush_feed stream_events_def observe_callbacks)
qed

text \<open>
  C6. Two ways of cutting the same bytes into chunks give the same summary: the
  \<open>md5sum\<close> and, when not anonymous, the \<open>sha256sum\<close> that the hash summer pushes
  depend on the concatenation of the chunks only. One chunk of ten bytes and ten chunks
  of one byte give the same record.
\<close>

theorem getHashSummer_chunking:
  "(concat chunks1 = concat chunks2 \<longrightarrow>
      summer_flush digest (snd (summer_feed a chunks1))
        = summer_flush digest (snd (summer_feed a chunks2))
    \<and> summer_events digest a chunks1 = summer_events digest a chunks2)
   \<and> summer_events digest a [[b0, b1, b2, b3, b4, b5, b6, b7, b8, b9]]
       = summer_events digest a [[b0], [b1], [b2], [b3], [b4], [b5], [b6], [b7], [b8], [b9]]"
  by (simp add: summer_flush_feed summer_events_feed)

theorem getHashSummer_chunking_witness:
  "concat [[1, 2, 3], [4 :: byte]] = concat [[1], [], [2, 3, 4]]
   \<and> summer_events (\<lambda>alg data enc. alg @ enc @ latin1 data) False [[1, 2, 3], [4]]
       = summer_events (\<lambda>alg data enc. alg @ enc @ latin1 data) False [[1], [], [2, 3, 4]]"
  using getHashSummer_chunking [of "[[1, 2, 3], [4]]" "[[1], [], [2, 3, 4]]"
      "\<lambda>alg data enc. alg @ enc @ latin1 data" False]
  by simp

text \<open>
  C8. The hash summer pushes nothing while chunks arrive. When the input ends it pushes
  one record and then the end of the stream: the record has \<open>md5sum\<close>, the digest in
  base64 that the md5 object gives for all the bytes received, and it has
  \<open>sha256sum\<close>, the digest in hex of the sha256 object for the same bytes, exactly
  when \<open>anonymous\<close> is false.
\<close>

theorem getHashSummer_summary:
  "fst (summer_feed a chunks) = replicate (length chunks) (Callback JUndefined)
   \<and> (\<forall>n. pushed (take n (fst (summer_feed a chunks))) = [])
   \<and> (\<forall>n. fst (observe True Transforming False (take n (fst (summer_feed a chunks)))) = [])
   \<and> summer_flush digest (snd (summer_feed a chunks)) =
       [Push (JObject ((''md5sum'', JStr (digest ''md5'' (concat chunks) ''base64''))
                       # (if a then []
                          else [(''sha256sum'', JStr (digest ''sha256'' (concat chunks) ''hex''))]))),
        Push JNull]
   \<and> summer_events digest a chunks =
       [Data (JObject ((''md5sum'', JStr (digest ''md5'' (concat chunks) ''base64''))
                       # (if a then []
                          else [(''sha256sum'', JStr (digest ''sha256'' (concat chunks) ''hex''))]))),
        End]
   \<and> (\<exists>record. summer_events digest a chunks = [Data (JObject record), End]
          \<and> map_of record ''md5sum'' = Some (JStr (digest ''md5'' (concat chunks) ''base64''))
          \<and> (map_of record ''sha256sum'' = None) = a
          \<and> (\<not> a \<longrightarrow> map_of record ''sha256sum''
                        = Some (JStr (digest ''sha256'' (concat chunks) ''hex''))))"
proof -
  have calls: "fst (summer_feed a chunks) = replicate (length chunks) (Callback JUndefined)"
    by (simp add: summer_feed_def summer_feed_calls)
  show ?thesis
    by (simp add: calls pushed_callbacks observe_callbacks summer_flush_feed summer_events_feed)
qed

theorem getHashSummer_summary_witness:
  "summer_events (\<lambda>alg data enc. alg @ enc @ latin1 data) False [[1, 2], [3]] =
     [Data (JObject [(''md5sum'', JStr (''md5base64'' @ latin1 [1, 2, 3])),
                     (''sha256sum'', JStr (''sha256hex'' @ latin1 [1, 2, 3]))]), End]
   \<and> summer_events (\<lambda>alg data enc. alg @ enc @ latin1 data) True [[1, 2], [3]] =
     [Data (JObject [(''md5sum'', JStr (''md5base64'' @ latin1 [1, 2, 3]))]), End]"
  using getHashSummer_summary [of False "[[1, 2], [3]]" "\<lambda>alg data enc. alg @ enc @ latin1 data"]
    getHashSummer_summary [of True "[[1, 2], [3]]" "\<lambda>alg data enc. alg @ enc @ latin1 data"]
  by simp

end
